theory Spec2Isabelle
  imports Main "HOL-Library.Multiset"
begin

section \<open>Python values and the library the two actions call\<close>

text \<open>
  The pack ran on CPython 2.7 (the \<open>st2actions.runners.pythonrunner\<close> interface): a
  \<open>str\<close> is a byte string, modelled as \<open>string\<close>.  An address is the pair
  \<open>(realname, email_address)\<close> that \<open>email.utils.parseaddr\<close> returns.

  A Python \<open>set\<close> is modelled by the list of its elements, without duplicates, in the
  order they were inserted.  A loop over the set does not visit them in that order but
  in the order of the hash table, which the library decides: see \<open>iter_order\<close> below.
\<close>

type_synonym addr = "string \<times> string"

datatype error =
    KeyError string
  | ValueError string
  | IOError string
  | ReError
  | Unmodelled
  | LibError string

datatype 'a outcome = Returned 'a | Raised error | Exited int

definition set_add :: "'a \<Rightarrow> 'a list \<Rightarrow> 'a list" where
  "set_add x s = (if x \<in> set s then s else s @ [x])"

definition set_discard :: "'a \<Rightarrow> 'a list \<Rightarrow> 'a list" where
  "set_discard x s = removeAll x s"

primrec set_union :: "'a list \<Rightarrow> 'a list \<Rightarrow> 'a list" where
  "set_union s [] = s"
| "set_union s (x # xs) = set_union (set_add x s) xs"

text \<open>
  \<open>s.pop()\<close>: KeyError on the empty set, else the first element of the table, which
  is the first that a loop would visit; the argument is the set in iteration order.
\<close>

definition set_pop :: "'a list \<Rightarrow> error + 'a" where
  "set_pop s = (case s of [] \<Rightarrow> Inl (KeyError ''pop from an empty set'') | x # _ \<Rightarrow> Inr x)"

text \<open>\<open>sep.join(xs)\<close> and \<open>s.split(c)\<close> for a one-character separator.\<close>

fun join :: "string \<Rightarrow> string list \<Rightarrow> string" where
  "join sep [] = []"
| "join sep [x] = x"
| "join sep (x # y # ys) = x @ sep @ join sep (y # ys)"

primrec split_char :: "char \<Rightarrow> string \<Rightarrow> string list" where
  "split_char sep [] = [[]]"
| "split_char sep (c # cs) =
     (if c = sep then [] # split_char sep cs
      else (case split_char sep cs of
              [] \<Rightarrow> [[c]]
            | w # ws \<Rightarrow> (c # w) # ws))"

text \<open>
  The library functions the header processor calls are parameters of the model: the
  general theorems hold for every address parser, formatter and regular-expression
  engine.  \<open>re_search\<close> yields \<open>Inl ReError\<close> where \<open>re.search\<close> raises \<open>re.error\<close>
  (a pattern that does not compile).
\<close>

record pylib =
  parseaddr :: "string \<Rightarrow> addr"
  formataddr :: "addr \<Rightarrow> string"
  re_search :: "string \<Rightarrow> string \<Rightarrow> error + bool"
  set_rank :: "addr list \<Rightarrow> addr \<Rightarrow> nat"

text \<open>
  The order in which \<open>for x in s\<close> visits a set of addresses follows the slots of the
  hash table, which depend on the hashes and on how the set was built.  \<open>set_rank L s a\<close>
  stands for the slot of \<open>a\<close> in the set \<open>s\<close>: the loop visits the elements by
  increasing rank.  Every order of every set is the iteration order for some rank
  (lemma \<open>every_order_is_possible\<close>), so the model excludes none.
\<close>

definition iter_order :: "pylib \<Rightarrow> addr list \<Rightarrow> addr list" where
  "iter_order L s = sort_key (set_rank L s) s"

subsection \<open>email.utils.formataddr (CPython 2.7)\<close>

text \<open>
  \<^verbatim>\<open>
  specialsre = re.compile(r'[][\\()<>@,:;".]')
  escapesre = re.compile(r'[][\\()"]')
  def formataddr(pair):
      name, address = pair
      if name:
          quotes = ''
          if specialsre.search(name):
              quotes = '"'
          name = escapesre.sub(r'\\\g<0>', name)
          return '%s%s%s <%s>' % (quotes, name, quotes, address)
      return address
  \<close>
\<close>

definition DQUOTE :: char where "DQUOTE = CHR 0x22"
definition BACKSLASH :: char where "BACKSLASH = CHR 0x5C"
definition TAB :: char where "TAB = CHR 0x09"
definition LF :: char where "LF = CHR 0x0A"
definition CR :: char where "CR = CHR 0x0D"

definition specialsre :: "char list" where
  "specialsre = ''][()<>@,:;.'' @ [BACKSLASH, DQUOTE]"

definition escapesre :: "char list" where
  "escapesre = ''][()'' @ [BACKSLASH, DQUOTE]"

primrec escape_name :: "string \<Rightarrow> string" where
  "escape_name [] = []"
| "escape_name (c # cs) =
     (if c \<in> set escapesre then BACKSLASH # c # escape_name cs else c # escape_name cs)"

definition cpy_formataddr :: "addr \<Rightarrow> string" where
  "cpy_formataddr pair =
     (let name = fst pair; address = snd pair in
      if name \<noteq> [] then
        (let quotes = (if list_ex (\<lambda>c. c \<in> set specialsre) name then [DQUOTE] else [])
         in quotes @ escape_name name @ quotes @ '' <'' @ address @ ''>'')
      else address)"

subsection \<open>email.utils.parseaddr, on plain addresses\<close>

text \<open>
  \<open>parseaddr\<close> runs \<open>AddrlistClass.getaddress\<close> of \<open>email/_parseaddr.py\<close> once and
  returns the first address found, \<open>('', '')\<close> if there is none.  The functions below
  follow that parser on the fields that every CPython release parses alike: no comment,
  quoted string, domain literal, group or source route, no white space after an atom of
  a local part unless a delimiter follows, a non-empty domain with a single \<open>@\<close>, and
  nothing after the first address.  \<open>None\<close> marks a field outside that fragment; the
  remaining input takes the place of \<open>self.pos\<close>.
\<close>

definition specials :: "char list" where
  "specials = ''()<>@,:;.'' @ [DQUOTE] @ ''[]''"

definition LWS :: "char list" where "LWS = [CHR '' '', TAB]"

definition FWS :: "char list" where "FWS = LWS @ [CR, LF]"

definition atomends :: "char list" where "atomends = specials @ LWS @ [CR, LF]"

definition phraseends :: "char list" where "phraseends = removeAll CHR ''.'' atomends"

definition gotonext :: "string \<Rightarrow> string" where
  "gotonext s = dropWhile (\<lambda>c. c \<in> set (LWS @ [LF, CR])) s"

definition getatom :: "char list \<Rightarrow> string \<Rightarrow> string \<times> string" where
  "getatom ends s = (takeWhile (\<lambda>c. c \<notin> set ends) s, dropWhile (\<lambda>c. c \<notin> set ends) s)"

function getphraselist :: "string \<Rightarrow> (string list \<times> string) option" where
  "getphraselist [] = Some ([], [])"
| "getphraselist (c # cs) =
     (if c \<in> set FWS then getphraselist cs
      else if c = DQUOTE then None
      else if c = CHR ''('' then None
      else if c \<in> set phraseends then Some ([], c # cs)
      else (case getphraselist (snd (getatom phraseends (c # cs))) of
              None \<Rightarrow> None
            | Some (plist, r) \<Rightarrow> Some (fst (getatom phraseends (c # cs)) # plist, r)))"
  by pat_completeness auto
termination
  by (relation "measure length")
     (auto simp: getatom_def less_Suc_eq_le length_dropWhile_le)

function getdomain :: "string \<Rightarrow> (string \<times> string) option" where
  "getdomain [] = Some ([], [])"
| "getdomain (c # cs) =
     (if c \<in> set LWS then getdomain cs
      else if c = CHR ''('' then None
      else if c = CHR ''['' then None
      else if c = CHR ''.'' then
        (case getdomain cs of None \<Rightarrow> None | Some (d, r) \<Rightarrow> Some (CHR ''.'' # d, r))
      else if c = CHR ''@'' then None
      else if c \<in> set atomends then Some ([], c # cs)
      else (case getdomain (snd (getatom atomends (c # cs))) of
              None \<Rightarrow> None
            | Some (d, r) \<Rightarrow> Some (fst (getatom atomends (c # cs)) @ d, r)))"
  by pat_completeness auto
termination
  by (relation "measure length")
     (auto simp: getatom_def less_Suc_eq_le length_dropWhile_le)

text \<open>
  The loop of \<open>getaddrspec\<close> over the local part; the flag says that white space was
  skipped right after an atom.
\<close>

function addrspec_local :: "bool \<Rightarrow> string \<Rightarrow> (string \<times> string) option" where
  "addrspec_local w [] = (if w then None else Some ([], []))"
| "addrspec_local w (c # cs) =
     (if c = CHR ''.'' then
        (case addrspec_local False (gotonext cs) of
           None \<Rightarrow> None
         | Some (l, r) \<Rightarrow> Some (CHR ''.'' # l, r))
      else if c = DQUOTE then None
      else if c \<in> set atomends then Some ([], c # cs)
      else if w then None
      else (let r = snd (getatom atomends (c # cs)) in
            case addrspec_local (gotonext r \<noteq> r) (gotonext r) of
              None \<Rightarrow> None
            | Some (l, r') \<Rightarrow> Some (fst (getatom atomends (c # cs)) @ l, r')))"
  by pat_completeness auto
termination
  by (relation "measure (\<lambda>(w, s). length s)")
     (auto simp: getatom_def gotonext_def less_Suc_eq_le length_dropWhile_le
           intro: order_trans [OF length_dropWhile_le])

definition getaddrspec :: "string \<Rightarrow> (string \<times> string) option" where
  "getaddrspec s =
     (case addrspec_local False (gotonext s) of
        None \<Rightarrow> None
      | Some (l, r) \<Rightarrow>
          (case r of
             [] \<Rightarrow> Some (l, [])
           | c # cs \<Rightarrow>
               if c \<noteq> CHR ''@'' then Some (l, r)
               else (case getdomain (gotonext cs) of
                       None \<Rightarrow> None
                     | Some (d, r') \<Rightarrow>
                         if d = [] then None else Some (l @ ''@'' @ d, r'))))"

text \<open>\<open>getrouteaddr\<close> is entered at a \<open><\<close>; a source route (\<open>@\<close>, \<open>:\<close>) is not modelled.\<close>

definition getrouteaddr :: "string \<Rightarrow> (string \<times> string) option" where
  "getrouteaddr s =
     (case gotonext (tl s) of
        [] \<Rightarrow> Some ([], [])
      | c # cs \<Rightarrow>
          if c = CHR ''>'' then Some ([], cs)
          else if c = CHR ''@'' then None
          else if c = CHR '':'' then None
          else (case getaddrspec (c # cs) of
                  None \<Rightarrow> None
                | Some (a, r) \<Rightarrow> Some (a, drop 1 r)))"

definition getaddress :: "string \<Rightarrow> (addr list \<times> string) option" where
  "getaddress s =
     (let s1 = gotonext s in
      case getphraselist s1 of
        None \<Rightarrow> None
      | Some (plist, s2) \<Rightarrow>
          (let s3 = gotonext s2;
               fin = (\<lambda>(returnlist, r).
                        let r' = gotonext r in
                        Some (returnlist, if r' \<noteq> [] \<and> hd r' = CHR '','' then tl r' else r'))
           in case s3 of
                [] \<Rightarrow> fin (if plist \<noteq> [] then [([], hd plist)] else [], [])
              | c # cs \<Rightarrow>
                  if c \<in> set ''.@'' then
                    (case getaddrspec s1 of
                       None \<Rightarrow> None
                     | Some (a, r) \<Rightarrow> fin ([([], a)], r))
                  else if c = CHR '':'' then None
                  else if c = CHR ''<'' then
                    (case getrouteaddr s3 of
                       None \<Rightarrow> None
                     | Some (a, r) \<Rightarrow> fin ([(join '' '' plist, a)], r))
                  else if plist \<noteq> [] then fin ([([], hd plist)], s3)
                  else if c \<in> set specials then fin ([], cs)
                  else fin ([], s3)))"

definition parseaddr_plain :: "string \<Rightarrow> addr option" where
  "parseaddr_plain field =
     (if field = [] then Some ([], [])
      else (case getaddress field of
              None \<Rightarrow> None
            | Some (ad, r) \<Rightarrow>
                if r \<noteq> [] then None
                else Some (if ad \<noteq> [] then hd ad else ([], []))))"

definition cpy_parseaddr :: "string \<Rightarrow> addr" where
  "cpy_parseaddr field = (case parseaddr_plain field of Some a \<Rightarrow> a | None \<Rightarrow> ([], []))"

subsection \<open>re.search, on patterns without operators\<close>

text \<open>
  The patterns evaluated below are built from ordinary characters, \<open>.\<close> (any character
  but a newline), \<open>^\<close> (start of the string) and \<open>$\<close> (end of the string, or just before
  a final newline).  A pattern with an opening parenthesis and no closing one, bracket or
  backslash does not compile: \<open>re.search\<close> raises \<open>re.error\<close>.  Any other pattern is
  outside the fragment (\<open>Unmodelled\<close>).
\<close>

datatype re_item = Lit char | AnyChar | AtBeginning | AtEnd

definition re_operators :: "char list" where
  "re_operators = ''*+?{}[]|()'' @ [BACKSLASH]"

primrec re_parse :: "string \<Rightarrow> re_item list" where
  "re_parse [] = []"
| "re_parse (c # cs) =
     (if c = CHR ''.'' then AnyChar
      else if c = CHR ''^'' then AtBeginning
      else if c = CHR ''$'' then AtEnd
      else Lit c) # re_parse cs"

fun re_match_here :: "bool \<Rightarrow> re_item list \<Rightarrow> string \<Rightarrow> bool" where
  "re_match_here b [] s = True"
| "re_match_here b (AtBeginning # is) s = (b \<and> re_match_here b is s)"
| "re_match_here b (AtEnd # is) s = ((s = [] \<or> s = [LF]) \<and> re_match_here b is s)"
| "re_match_here b (Lit c # is) [] = False"
| "re_match_here b (Lit c # is) (x # s) = (x = c \<and> re_match_here False is s)"
| "re_match_here b (AnyChar # is) [] = False"
| "re_match_here b (AnyChar # is) (x # s) = (x \<noteq> LF \<and> re_match_here False is s)"

fun re_scan :: "bool \<Rightarrow> re_item list \<Rightarrow> string \<Rightarrow> bool" where
  "re_scan b is [] = re_match_here b is []"
| "re_scan b is (x # s) = (re_match_here b is (x # s) \<or> re_scan False is s)"

definition cpy_re_search :: "string \<Rightarrow> string \<Rightarrow> error + bool" where
  "cpy_re_search pattern s =
     (if list_all (\<lambda>c. c \<notin> set re_operators) pattern then Inr (re_scan True (re_parse pattern) s)
      else if CHR ''('' \<in> set pattern \<and> CHR '')'' \<notin> set pattern \<and> CHR ''['' \<notin> set pattern
              \<and> BACKSLASH \<notin> set pattern then Inl ReError
      else Inl Unmodelled)"

text \<open>
  The instance used in the examples visits a set in insertion order; the examples render
  sets of one element, where there is one order.
\<close>

definition cpython :: pylib where
  "cpython = \<lparr> parseaddr = cpy_parseaddr, formataddr = cpy_formataddr,
               re_search = cpy_re_search, set_rank = (\<lambda>s a. 0) \<rparr>"

section \<open>Header processor: process\_email\_headers.py\<close>

definition TO_HEADER_STRING :: string where "TO_HEADER_STRING = ''To''"
definition FROM_HEADER_STRING :: string where "FROM_HEADER_STRING = ''From''"
definition CC_HEADER_STRING :: string where "CC_HEADER_STRING = ''Cc''"
definition DELIVERED_TO_HEADER_STRING :: string where
  "DELIVERED_TO_HEADER_STRING = ''Delivered-To''"
definition REFERENCES_STRING :: string where "REFERENCES_STRING = ''References''"
definition MESSAGE_ID_STRING :: string where "MESSAGE_ID_STRING = ''Message-Id''"

subsection \<open>parse\_headers\<close>

record parsed =
  header_to :: "addr list"
  header_from :: "addr list"
  header_cc :: "addr list"
  header_self :: "addr list"
  header_references :: string
  header_reply_to :: string

definition parsed_init :: parsed where
  "parsed_init = \<lparr> header_to = [], header_from = [], header_cc = [], header_self = [],
                   header_references = [], header_reply_to = [] \<rparr>"

text \<open>The inner loop \<open>for addr in addr_array\<close> of one address header.\<close>

primrec add_addrs :: "pylib \<Rightarrow> string \<Rightarrow> string list \<Rightarrow> parsed \<Rightarrow> parsed" where
  "add_addrs L name [] st = st"
| "add_addrs L name (a # as) st =
     (let addr_tuple = parseaddr L a in
      add_addrs L name as
        (if name = FROM_HEADER_STRING then
           st\<lparr>header_from := set_add addr_tuple (header_from st)\<rparr>
         else if name = TO_HEADER_STRING then
           st\<lparr>header_to := set_add addr_tuple (header_to st)\<rparr>
         else if name = CC_HEADER_STRING then
           st\<lparr>header_cc := set_add addr_tuple (header_cc st)\<rparr>
         else if name = DELIVERED_TO_HEADER_STRING then
           st\<lparr>header_self := set_add addr_tuple (header_self st)\<rparr>
         else st))"

text \<open>The body of \<open>for header in headers\<close>: three independent \<open>if\<close> statements.\<close>

definition header_step :: "pylib \<Rightarrow> string \<times> string \<Rightarrow> parsed \<Rightarrow> parsed" where
  "header_step L header st =
     (let st1 = (if fst header \<in> set [TO_HEADER_STRING, FROM_HEADER_STRING, CC_HEADER_STRING,
                                       DELIVERED_TO_HEADER_STRING]
                 then add_addrs L (fst header) (split_char CHR '','' (snd header)) st
                 else st);
          st2 = (if fst header = REFERENCES_STRING
                 then st1\<lparr>header_references := header_references st1 @ snd header\<rparr>
                 else st1)
      in if fst header = MESSAGE_ID_STRING then st2\<lparr>header_reply_to := snd header\<rparr>
         else st2)"

primrec header_loop :: "pylib \<Rightarrow> (string \<times> string) list \<Rightarrow> parsed \<Rightarrow> parsed" where
  "header_loop L [] st = st"
| "header_loop L (h # hs) st = header_loop L hs (header_step L h st)"

definition parse_headers :: "pylib \<Rightarrow> (string \<times> string) list \<Rightarrow> parsed" where
  "parse_headers L headers =
     (let st = header_loop L headers parsed_init in
      if header_reply_to st \<noteq> [] then
        st\<lparr>header_references := header_references st @ '' '' @ header_reply_to st\<rparr>
      else st)"

subsection \<open>check\_allowed\<close>

text \<open>
  The loop \<open>for addr_tuple in header_from\<close> under one pattern: \<open>Inr True\<close> is the
  \<open>return True\<close>, \<open>Inr False\<close> the end of the loop, \<open>Inl\<close> an error raised by
  \<open>re.search\<close>.
\<close>

primrec search_addrs :: "pylib \<Rightarrow> string \<Rightarrow> addr list \<Rightarrow> error + bool" where
  "search_addrs L pattern [] = Inr False"
| "search_addrs L pattern (addr_tuple # rest) =
     (case re_search L pattern (snd addr_tuple) of
        Inl e \<Rightarrow> Inl e
      | Inr found \<Rightarrow> if found then Inr True else search_addrs L pattern rest)"

primrec search_patterns ::
  "pylib \<Rightarrow> (string \<Rightarrow> string) \<Rightarrow> string list \<Rightarrow> addr list \<Rightarrow> error + bool" where
  "search_patterns L mk [] hfrom = Inr False"
| "search_patterns L mk (p # ps) hfrom =
     (case search_addrs L (mk p) hfrom of
        Inl e \<Rightarrow> Inl e
      | Inr found \<Rightarrow> if found then Inr True else search_patterns L mk ps hfrom)"

definition domain_pattern :: "string \<Rightarrow> string" where
  "domain_pattern domain = ''@'' @ domain @ ''$''"

definition user_pattern :: "string \<Rightarrow> string" where
  "user_pattern user = ''^'' @ user @ ''$''"

definition check_allowed :: "pylib \<Rightarrow> addr list \<Rightarrow> string list \<Rightarrow> string list \<Rightarrow> error + bool"
  where
  "check_allowed L hfrom allowed_domains allowed_users =
     (case (if allowed_domains \<noteq> []
            then search_patterns L domain_pattern allowed_domains (iter_order L hfrom)
            else Inr False) of
        Inl e \<Rightarrow> Inl e
      | Inr found \<Rightarrow>
          if found then Inr True
          else (case (if allowed_users \<noteq> []
                      then search_patterns L user_pattern allowed_users (iter_order L hfrom)
                      else Inr False) of
                  Inl e \<Rightarrow> Inl e
                | Inr found' \<Rightarrow> if found' then Inr True else Inr False))"

subsection \<open>add\_enforced\_cc\<close>

text \<open>A loop \<open>for t in s: if addr_tuple[1] == t[1]: exists = True; break\<close>.\<close>

primrec has_email :: "string \<Rightarrow> addr list \<Rightarrow> bool" where
  "has_email e [] = False"
| "has_email e (t # ts) = (if e = snd t then True else has_email e ts)"

primrec add_enforced_cc ::
  "pylib \<Rightarrow> string list \<Rightarrow> addr list \<Rightarrow> addr list \<Rightarrow> addr list \<Rightarrow> addr list" where
  "add_enforced_cc L [] hto hcc hfrom = hcc"
| "add_enforced_cc L (cc_addr # rest) hto hcc hfrom =
     (let addr_tuple = parseaddr L cc_addr;
          exists1 = has_email (snd addr_tuple) (iter_order L hto);
          exists2 = (if \<not> exists1 then has_email (snd addr_tuple) (iter_order L hcc)
                     else exists1);
          exists3 = (if \<not> exists2 then has_email (snd addr_tuple) (iter_order L hfrom)
                     else exists2)
      in add_enforced_cc L rest hto
           (if \<not> exists3 then set_add addr_tuple hcc else hcc) hfrom)"

subsection \<open>process\_results\<close>

text \<open>
  \<open>for addr_to in header_to.copy()\<close> runs over the copy while \<open>discard\<close> changes
  \<open>header_to\<close> itself.  \<open>sys.stdout.flush()\<close> changes nothing that \<open>run\<close> returns.
\<close>

primrec discard_matching :: "addr \<Rightarrow> addr list \<Rightarrow> addr list \<Rightarrow> addr list" where
  "discard_matching addr_self [] hto = hto"
| "discard_matching addr_self (addr_to # rest) hto =
     discard_matching addr_self rest
       (if snd addr_self = snd addr_to then set_discard addr_to hto else hto)"

primrec discard_self :: "pylib \<Rightarrow> addr list \<Rightarrow> addr list \<Rightarrow> addr list" where
  "discard_self L [] hto = hto"
| "discard_self L (addr_self # rest) hto =
     discard_self L rest (discard_matching addr_self (iter_order L hto) hto)"

type_synonym result = "string \<rightharpoonup> string"

definition process_results ::
  "pylib \<Rightarrow> result \<Rightarrow> addr list \<Rightarrow> addr list \<Rightarrow> addr list \<Rightarrow> addr list \<Rightarrow> string \<Rightarrow> string
     \<Rightarrow> error + result" where
  "process_results L result hfrom hto hcc hself href hirt =
     (let hto1 = discard_self L (iter_order L hself) hto;
          hto2 = set_union hto1 hfrom;
          to_addrs = map (formataddr L) (iter_order L hto2);
          result1 = result(''to'' \<mapsto> join '', '' to_addrs);
          cc_addrs = map (formataddr L) (iter_order L hcc);
          result2 = result1(''cc'' \<mapsto> join '', '' cc_addrs)
      in case set_pop (iter_order L hself) of
           Inl e \<Rightarrow> Inl e
         | Inr a \<Rightarrow>
             Inr (result2(''from'' \<mapsto> formataddr L a,
                          ''references'' \<mapsto> href,
                          ''in_reply_to'' \<mapsto> hirt)))"

subsection \<open>run\<close>

text \<open>
  \<open>run\<close> yields the entries written to \<open>self.logger\<close> and how the call ends: with the
  result mapping, with an exception, or with \<open>sys.exit\<close>.
\<close>

definition run ::
  "pylib \<Rightarrow> (string \<times> string) list \<Rightarrow> string list \<Rightarrow> string list \<Rightarrow> string list
     \<Rightarrow> string list \<times> result outcome" where
  "run L headers enforce_cc allowed_domains allowed_users =
     (let result = [''to'' \<mapsto> [], ''from'' \<mapsto> [], ''cc'' \<mapsto> []];
          p = parse_headers L headers;
          continue = (\<lambda>u::unit.
            let hcc = (if enforce_cc \<noteq> []
                       then add_enforced_cc L enforce_cc (header_to p) (header_cc p)
                              (header_from p)
                       else header_cc p)
            in case process_results L result (header_from p) (header_to p) hcc
                      (header_self p) (header_references p) (header_reply_to p) of
                 Inl e \<Rightarrow> ([], Raised e)
               | Inr r \<Rightarrow> ([], Returned r))
      in if allowed_domains \<noteq> [] \<or> allowed_users \<noteq> [] then
           (case check_allowed L (header_from p) allowed_domains allowed_users of
              Inl e \<Rightarrow> ([], Raised e)
            | Inr allowed \<Rightarrow>
                if \<not> allowed then
                  (case set_pop (iter_order L (header_from p)) of
                     Inl e \<Rightarrow> ([], Raised e)
                   | Inr a \<Rightarrow> ([''User not permitted: '' @ formataddr L a], Exited 1))
                else continue ())
         else continue ())"

definition result_field :: "result outcome \<Rightarrow> string \<Rightarrow> string option" where
  "result_field out k = (case out of Returned r \<Rightarrow> r k | Raised e \<Rightarrow> None | Exited n \<Rightarrow> None)"

definition raised :: "'a outcome \<Rightarrow> error option" where
  "raised out = (case out of Returned r \<Rightarrow> None | Raised e \<Rightarrow> Some e | Exited n \<Rightarrow> None)"

definition exit_status :: "'a outcome \<Rightarrow> int option" where
  "exit_status out = (case out of Returned r \<Rightarrow> None | Raised e \<Rightarrow> None | Exited n \<Rightarrow> Some n)"

section \<open>Email sender: send\_html\_email.py\<close>

subsection \<open>Configuration, MIME objects, the SMTP session\<close>

text \<open>
  \<open>self.config\<close> comes from config.yaml: a value is a string or an integer, a mapping is
  kept as the list of its items (\<open>accounts.keys()\<close> is read in that order).
  \<open>imap_mailboxes\<close> is \<open>None\<close> when the key is absent.
\<close>

datatype cfgval = CStr string | CInt int

type_synonym account_data = "(string \<times> cfgval) list"

record config =
  imap_mailboxes :: "(string \<times> account_data) list option"

datatype mime =
    MIMEMultipart string "(string \<times> string) list" "string option" "mime list"
  | MIMEText string string
  | MIMEImage string "(string \<times> string) list" string

text \<open>
  \<open>msg_root\<close> and \<open>msg_alt\<close> are two objects; \<open>msg_alt\<close> is attached to \<open>msg_root\<close>
  before its own parts are attached.  \<open>root_parts\<close> therefore keeps a reference
  (\<open>AltRef\<close>) to \<open>msg_alt\<close>, and \<open>resolve\<close> reads the object when the message is
  serialized.
\<close>

datatype attached = AltRef | Part mime

record msg_state =
  root_headers :: "(string \<times> string) list"
  root_preamble :: "string option"
  root_parts :: "attached list"
  alt_parts :: "mime list"

definition resolve :: "msg_state \<Rightarrow> mime" where
  "resolve m =
     MIMEMultipart ''related'' (root_headers m) (root_preamble m)
       (map (\<lambda>a. case a of AltRef \<Rightarrow> MIMEMultipart ''alternative'' [] None (alt_parts m)
                            | Part p \<Rightarrow> p)
            (root_parts m))"

datatype smtp_call =
    Connect cfgval int nat
  | Ehlo
  | StartTLS
  | Login cfgval cfgval
  | SendMail string "string list" string
  | Quit

text \<open>
  What the sender finds outside: the files it may open, \<open>imghdr.what\<close> (the image type
  guessed by \<open>MIMEImage\<close>), \<open>Message.as_string\<close>, and the error, if any, with which the
  SMTP library answers a call after the calls made before it.
\<close>

record mail_env =
  files :: "string \<rightharpoonup> string"
  imghdr_what :: "string \<Rightarrow> string option"
  as_string :: "mime \<Rightarrow> string"
  smtp_reply :: "smtp_call list \<Rightarrow> smtp_call \<Rightarrow> error option"

text \<open>What a call of \<open>SendEmail.run\<close> leaves behind: the message objects and the SMTP calls.\<close>

record send_world =
  message :: "msg_state option"
  smtp_log :: "smtp_call list"

definition world_init :: send_world where
  "world_init = \<lparr> message = None, smtp_log = [] \<rparr>"

subsection \<open>Python builtins\<close>

text \<open>\<open>s.split(ab)\<close> for a separator of two characters; \<open>os.path.basename\<close>.\<close>

fun split_two :: "char \<Rightarrow> char \<Rightarrow> string \<Rightarrow> string list" where
  "split_two a b (x # y # r) =
     (if x = a \<and> y = b then [] # split_two a b r
      else (case split_two a b (y # r) of
              [] \<Rightarrow> [[x]]
            | w # ws \<Rightarrow> (x # w) # ws))"
| "split_two a b s = [s]"

definition basename :: "string \<Rightarrow> string" where
  "basename p = last (split_char CHR ''/'' p)"


text \<open>\<open>int(v)\<close> in base 10: white space around, an optional sign, at least one digit.\<close>

definition py_space :: "char \<Rightarrow> bool" where
  "py_space c \<longleftrightarrow> c \<in> set [CHR '' '', TAB, LF, CR, CHR 0x0B, CHR 0x0C]"

definition py_strip :: "string \<Rightarrow> string" where
  "py_strip s = rev (dropWhile py_space (rev (dropWhile py_space s)))"

definition is_digit :: "char \<Rightarrow> bool" where
  "is_digit c \<longleftrightarrow> 48 \<le> (of_char c :: nat) \<and> (of_char c :: nat) \<le> 57"

definition digits_value :: "string \<Rightarrow> int" where
  "digits_value ds = foldl (\<lambda>n c. 10 * n + (int (of_char c) - 48)) 0 ds"

definition py_int :: "cfgval \<Rightarrow> error + int" where
  "py_int v =
     (case v of
        CInt n \<Rightarrow> Inr n
      | CStr s \<Rightarrow>
          (let t = py_strip s;
               neg = (t \<noteq> [] \<and> hd t = CHR ''-'');
               ds = (if t \<noteq> [] \<and> (hd t = CHR ''-'' \<or> hd t = CHR ''+'') then tl t else t)
           in if ds \<noteq> [] \<and> list_all is_digit ds
              then Inr (if neg then - digits_value ds else digits_value ds)
              else Inl (ValueError ''invalid literal for int() with base 10'')))"

definition dict_get :: "(string \<times> 'v) list \<Rightarrow> string \<Rightarrow> error + 'v" where
  "dict_get d k = (case map_of d k of None \<Rightarrow> Inl (KeyError k) | Some v \<Rightarrow> Inr v)"

subsection \<open>SendEmail.run\<close>

definition account_missing :: "string \<Rightarrow> (string \<times> account_data) list \<Rightarrow> string" where
  "account_missing account accounts =
     ''The account '' @ [DQUOTE] @ account @ [DQUOTE] @
     '' does not seem to appear in the configuration. Available accounts are: '' @
     join '','' (map fst accounts)"

definition lookup_account :: "config \<Rightarrow> string \<Rightarrow> error + account_data" where
  "lookup_account cfg account =
     (case imap_mailboxes cfg of
        None \<Rightarrow>
          Inl (ValueError ([DQUOTE] @ ''imap_mailboxes'' @ [DQUOTE] @
                 '' config value is required to send email.''))
      | Some accounts \<Rightarrow>
          if accounts = [] then
            Inl (ValueError ''at least one account is required to send email.'')
          else (case map_of accounts account of
                  None \<Rightarrow> Inl (KeyError (account_missing account accounts))
                | Some account_data \<Rightarrow> Inr account_data))"

text \<open>\<open>if message_text: msg_alt.attach(MIMEText(message_text, 'plain'))\<close>, as the list of
  parts attached.\<close>

definition text_part :: "string \<Rightarrow> string option \<Rightarrow> mime list" where
  "text_part subtype v =
     (case v of None \<Rightarrow> [] | Some s \<Rightarrow> if s \<noteq> [] then [MIMEText subtype s] else [])"

text \<open>The message as it stands before the images are read.\<close>

definition build_message ::
  "string \<Rightarrow> string \<Rightarrow> string \<Rightarrow> string \<Rightarrow> string \<Rightarrow> string \<Rightarrow> string option \<Rightarrow> string option
     \<Rightarrow> msg_state" where
  "build_message email_from email_to email_cc email_references email_in_reply_to subject
     message_text message_html =
     \<lparr> root_headers = [(''Subject'', subject), (''From'', email_from), (''To'', email_to),
                       (''Cc'', email_cc), (''References'', email_references),
                       (''In-Reply-To'', email_in_reply_to)],
       root_preamble = Some ''This is a multi-part message in MIME format.'',
       root_parts = [AltRef],
       alt_parts = text_part ''plain'' message_text @ text_part ''html'' message_html \<rparr>"

definition envelope_recipients :: "string \<Rightarrow> string \<Rightarrow> string list" where
  "envelope_recipients email_to email_cc =
     (if email_cc \<noteq> [] then split_two CHR '','' CHR '' '' email_to @
                               split_two CHR '','' CHR '' '' email_cc
      else split_two CHR '','' CHR '' '' email_to)"

text \<open>
  \<open>for image in message_images\<close>: a file that cannot be opened raises IOError and ends
  the loop; the parts attached so far stay attached.
\<close>

primrec attach_images :: "mail_env \<Rightarrow> string list \<Rightarrow> msg_state \<Rightarrow> error option \<times> msg_state"
  where
  "attach_images E [] m = (None, m)"
| "attach_images E (image_path # rest) m =
     (let name = basename image_path in
      case files E image_path of
        None \<Rightarrow> (Some (IOError image_path), m)
      | Some imgdata \<Rightarrow>
          (let subtype = (case imghdr_what E imgdata of
                            Some t \<Rightarrow> t
                          | None \<Rightarrow> last (split_char CHR ''.'' name));
               img = MIMEImage subtype [(''Content-ID'', ''<'' @ name @ ''>'')] imgdata
           in attach_images E rest (m\<lparr>root_parts := root_parts m @ [Part img]\<rparr>)))"

text \<open>One call of the SMTP library: it is logged, then it succeeds or raises.\<close>

definition smtp_do :: "mail_env \<Rightarrow> smtp_call \<Rightarrow> send_world \<Rightarrow> error option \<times> send_world" where
  "smtp_do E c w = (smtp_reply E (smtp_log w) c, w\<lparr>smtp_log := smtp_log w @ [c]\<rparr>)"

definition smtp_session ::
  "mail_env \<Rightarrow> account_data \<Rightarrow> string \<Rightarrow> string list \<Rightarrow> msg_state \<Rightarrow> send_world
     \<Rightarrow> unit outcome \<times> send_world" where
  "smtp_session E account_data email_from toaddrs m w =
     (case dict_get account_data ''server'' of
        Inl e \<Rightarrow> (Raised e, w)
      | Inr server \<Rightarrow>
     (case dict_get account_data ''port'' of
        Inl e \<Rightarrow> (Raised e, w)
      | Inr port \<Rightarrow>
     (case py_int port of
        Inl e \<Rightarrow> (Raised e, w)
      | Inr portnum \<Rightarrow>
     (case smtp_do E (Connect server portnum 20) w of
        (Some e, w1) \<Rightarrow> (Raised e, w1)
      | (None, w1) \<Rightarrow>
     (case smtp_do E Ehlo w1 of
        (Some e, w2) \<Rightarrow> (Raised e, w2)
      | (None, w2) \<Rightarrow>
     (case smtp_do E StartTLS w2 of
        (Some e, w3) \<Rightarrow> (Raised e, w3)
      | (None, w3) \<Rightarrow>
     (case dict_get account_data ''username'' of
        Inl e \<Rightarrow> (Raised e, w3)
      | Inr username \<Rightarrow>
     (case dict_get account_data ''password'' of
        Inl e \<Rightarrow> (Raised e, w3)
      | Inr password \<Rightarrow>
     (case smtp_do E (Login username password) w3 of
        (Some e, w4) \<Rightarrow> (Raised e, w4)
      | (None, w4) \<Rightarrow>
     (case smtp_do E (SendMail email_from toaddrs (as_string E (resolve m))) w4 of
        (Some e, w5) \<Rightarrow> (Raised e, w5)
      | (None, w5) \<Rightarrow>
     (case smtp_do E Quit w5 of
        (Some e, w6) \<Rightarrow> (Raised e, w6)
      | (None, w6) \<Rightarrow> (Returned (), w6))))))))))))"

definition send_email_run ::
  "mail_env \<Rightarrow> config \<Rightarrow> string \<Rightarrow> string \<Rightarrow> string \<Rightarrow> string \<Rightarrow> string \<Rightarrow> string \<Rightarrow> string
     \<Rightarrow> string option \<Rightarrow> string option \<Rightarrow> string list \<Rightarrow> unit outcome \<times> send_world" where
  "send_email_run E cfg email_from email_to email_cc email_references email_in_reply_to subject
     account message_text message_html message_images =
     (case lookup_account cfg account of
        Inl e \<Rightarrow> (Raised e, world_init)
      | Inr account_data \<Rightarrow>
          (let m = build_message email_from email_to email_cc email_references
                     email_in_reply_to subject message_text message_html;
               toaddrs = envelope_recipients email_to email_cc
           in case attach_images E message_images m of
                (Some e, m') \<Rightarrow> (Raised e, world_init\<lparr>message := Some m'\<rparr>)
              | (None, m') \<Rightarrow>
                  smtp_session E account_data email_from toaddrs m'
                    (world_init\<lparr>message := Some m'\<rparr>)))"

subsection \<open>What the claims say about the References header\<close>

text \<open>
  The values of all \<open>References\<close> headers, one after the other, and the value of the
  last \<open>Message-Id\<close> header (empty if there is none).
\<close>

definition refs_concat :: "(string \<times> string) list \<Rightarrow> string" where
  "refs_concat headers = concat (map snd (filter (\<lambda>h. fst h = REFERENCES_STRING) headers))"

definition last_message_id :: "(string \<times> string) list \<Rightarrow> string" where
  "last_message_id headers =
     (let ids = filter (\<lambda>h. fst h = MESSAGE_ID_STRING) headers
      in if ids = [] then [] else snd (last ids))"

subsection \<open>What the claims say about addresses and patterns\<close>

text \<open>An email address occurs, under any display name, in one of the three sets.\<close>

definition known_email :: "string \<Rightarrow> addr list \<Rightarrow> addr list \<Rightarrow> addr list \<Rightarrow> bool" where
  "known_email e hto hcc hfrom \<longleftrightarrow> e \<in> snd ` (set hto \<union> set hcc \<union> set hfrom)"

text \<open>
  Some from-address matches the pattern made from some entry of a list; every search
  of a list returns (no pattern of it fails to compile on an address examined).
\<close>

definition address_matches :: "pylib \<Rightarrow> (string \<Rightarrow> string) \<Rightarrow> string list \<Rightarrow> addr list \<Rightarrow> bool"
  where
  "address_matches L mk ps hfrom \<longleftrightarrow>
     list_ex (\<lambda>a. list_ex (\<lambda>p. re_search L (mk p) (snd a) = Inr True) ps) hfrom"

definition sender_matches :: "pylib \<Rightarrow> addr list \<Rightarrow> string list \<Rightarrow> string list \<Rightarrow> bool" where
  "sender_matches L hfrom allowed_domains allowed_users \<longleftrightarrow>
     address_matches L domain_pattern allowed_domains hfrom \<or>
     address_matches L user_pattern allowed_users hfrom"

definition searches_return :: "pylib \<Rightarrow> (string \<Rightarrow> string) \<Rightarrow> string list \<Rightarrow> addr list \<Rightarrow> bool"
  where
  "searches_return L mk ps hfrom \<longleftrightarrow>
     list_all (\<lambda>a. list_all (\<lambda>p. \<not> isl (re_search L (mk p) (snd a))) ps) hfrom"

text \<open>The to-set that \<open>process_results\<close> renders; substring test on the rendered string.\<close>

definition outgoing_to :: "pylib \<Rightarrow> addr list \<Rightarrow> addr list \<Rightarrow> addr list \<Rightarrow> addr list" where
  "outgoing_to L hself hto hfrom = set_union (discard_self L (iter_order L hself) hto) hfrom"

primrec starts_with :: "string \<Rightarrow> string \<Rightarrow> bool" where
  "starts_with s [] = True"
| "starts_with s (c # cs) = (case s of [] \<Rightarrow> False | x # xs \<Rightarrow> x = c \<and> starts_with xs cs)"

primrec contains :: "string \<Rightarrow> string \<Rightarrow> bool" where
  "contains [] sub = (sub = [])"
| "contains (c # cs) sub = (starts_with (c # cs) sub \<or> contains cs sub)"

definition field_contains :: "result outcome \<Rightarrow> string \<Rightarrow> string \<Rightarrow> bool" where
  "field_contains out k sub =
     (case result_field out k of None \<Rightarrow> False | Some v \<Rightarrow> contains v sub)"

subsection \<open>An environment and a configuration for the examples\<close>

text \<open>
  One readable image whose type \<open>imghdr\<close> does not recognise, an SMTP server that accepts
  every call, and one account.
\<close>

definition example_env :: mail_env where
  "example_env = \<lparr> files = [''/tmp/logo.png'' \<mapsto> ''PNGDATA''], imghdr_what = (\<lambda>d. None),
                    as_string = (\<lambda>m. ''serialized''), smtp_reply = (\<lambda>h c. None) \<rparr>"



section \<open>Properties of the header processor\<close>

subsection \<open>Iteration order\<close>

lemma set_iter_order [simp]: "set (iter_order L s) = set s"
  by (simp add: iter_order_def)

lemma mset_iter_order [simp]: "mset (iter_order L s) = mset s"
  by (simp add: iter_order_def)

lemma distinct_iter_order [simp]: "distinct (iter_order L s) = distinct s"
  by (simp add: iter_order_def)

lemma iter_order_Nil [simp]: "iter_order L [] = []"
  by (simp add: iter_order_def)

lemma iter_order_eq_Nil [simp]: "iter_order L s = [] \<longleftrightarrow> s = []"
  using set_iter_order [of L s] by (metis set_empty)

lemma ranking_exists:
  "distinct ys \<Longrightarrow> \<exists>f :: 'a \<Rightarrow> nat. inj_on f (set ys) \<and> sorted (map f ys)"
proof (induction ys)
  case Nil
  then show ?case by simp
next
  case (Cons y ys)
  then obtain f :: "'a \<Rightarrow> nat" where f: "inj_on f (set ys)" "sorted (map f ys)" by auto
  define g where "g = (\<lambda>a. if a = y then 0 else Suc (f a))"
  have inj: "inj_on g (set (y # ys))"
    using f(1) Cons.prems by (auto simp: g_def inj_on_def)
  have eq: "map g ys = map Suc (map f ys)"
    using Cons.prems by (auto simp: g_def)
  have suc: "sorted (map Suc zs)" if "sorted zs" for zs :: "nat list"
    using that by (induction zs) auto
  have "sorted (map g ys)" unfolding eq by (rule suc) (rule f(2))
  then have "sorted (map g (y # ys))" by (simp add: g_def)
  with inj show ?case by blast
qed

lemma one_filter: "k \<in> set zs \<Longrightarrow> distinct zs \<Longrightarrow> filter (\<lambda>x. k = x) zs = [k]"
  by (induction zs) (auto simp: filter_empty_conv)

lemma every_order_is_possible:
  assumes "distinct s" and "mset ys = mset s"
  shows "\<exists>rank. iter_order (L\<lparr>set_rank := rank\<rparr>) s = ys"
proof -
  from assms have dy: "distinct ys" and se: "set ys = set s"
    by (metis mset_eq_imp_distinct_iff, metis mset_eq_setD)
  from ranking_exists [OF dy] obtain f :: "addr \<Rightarrow> nat"
    where f: "inj_on f (set ys)" "sorted (map f ys)" by blast
  have one: "filter (\<lambda>x. f k = f x) zs = [k]" if "k \<in> set zs" "distinct zs" "set zs = set ys"
    for k zs
  proof -
    have "filter (\<lambda>x. f k = f x) zs = filter (\<lambda>x. k = x) zs"
      using f(1) that by (intro filter_cong) (auto simp: inj_on_def)
    with one_filter [OF that(1,2)] show ?thesis by simp
  qed
  have "sort_key f s = ys"
  proof (rule properties_for_sort_key)
    show "mset ys = mset s" by (rule assms(2))
    show "sorted (map f ys)" by (rule f(2))
    show "filter (\<lambda>x. f k = f x) ys = filter (\<lambda>x. f k = f x) s" if "k \<in> set ys" for k
    proof -
      have "filter (\<lambda>x. f k = f x) ys = [k]"
        by (rule one) (use that dy in simp_all)
      moreover have "k \<in> set s" using that se by blast
      then have "filter (\<lambda>x. f k = f x) s = [k]"
        by (rule one) (use assms(1) se in simp_all)
      ultimately show ?thesis by simp
    qed
  qed
  then have "iter_order (L\<lparr>set_rank := (\<lambda>_. f)\<rparr>) s = ys"
    by (simp add: iter_order_def)
  then show ?thesis by blast
qed

subsection \<open>parse\_headers\<close>

lemma add_addrs_refs [simp]:
  "header_references (add_addrs L n as st) = header_references st"
  "header_reply_to (add_addrs L n as st) = header_reply_to st"
  by (induction as arbitrary: st) (simp_all add: Let_def)

lemma header_step_refs:
  "header_references (header_step L h st) =
     (if fst h = REFERENCES_STRING then header_references st @ snd h else header_references st)"
  "header_reply_to (header_step L h st) =
     (if fst h = MESSAGE_ID_STRING then snd h else header_reply_to st)"
  by (simp_all add: header_step_def Let_def)

lemma header_loop_references:
  "header_references (header_loop L hs st) = header_references st @ refs_concat hs"
  by (induction hs arbitrary: st) (simp_all add: header_step_refs refs_concat_def)

lemma header_loop_reply_to:
  "header_reply_to (header_loop L hs st) =
     (if filter (\<lambda>h. fst h = MESSAGE_ID_STRING) hs = [] then header_reply_to st
      else last_message_id hs)"
  by (induction hs arbitrary: st) (auto simp: header_step_refs last_message_id_def Let_def)

lemma parse_headers_refs:
  "header_reply_to (parse_headers L headers) = last_message_id headers"
  "header_references (parse_headers L headers) =
     (if last_message_id headers \<noteq> []
      then refs_concat headers @ '' '' @ last_message_id headers
      else refs_concat headers)"
  by (simp_all add: parse_headers_def Let_def header_loop_references header_loop_reply_to
        parsed_init_def last_message_id_def)

text \<open>
  C2, as amended.  For every header list, \<open>in_reply_to\<close> is the value of the last
  \<open>Message-Id\<close> header (empty if there is none); the references string is the values of
  all \<open>References\<close> headers concatenated in order with nothing between them, followed,
  when the captured message id is not empty, by a space and that message id.
\<close>

theorem parse_headers_references:
  "header_reply_to (parse_headers L headers) = last_message_id headers \<and>
   header_references (parse_headers L headers) =
     (if last_message_id headers \<noteq> []
      then refs_concat headers @ '' '' @ last_message_id headers
      else refs_concat headers)"
  by (simp only: parse_headers_refs simp_thms)

text \<open>
  C2, as stated, fails: two \<open>References\<close> headers are joined without a space.
\<close>

theorem references_not_space_joined:
  "header_references
     (parse_headers cpython [(''References'', ''<a@x>''), (''References'', ''<b@x>'')])
     = ''<a@x><b@x>'' \<and>
   header_references
     (parse_headers cpython [(''References'', ''<a@x>''), (''References'', ''<b@x>'')])
     \<noteq> join '' '' [''<a@x>'', ''<b@x>'']"
  by (simp add: parse_headers_refs refs_concat_def last_message_id_def
        REFERENCES_STRING_def MESSAGE_ID_STRING_def)

lemma add_addrs_from_other:
  "name \<noteq> FROM_HEADER_STRING \<Longrightarrow> header_from (add_addrs L name as st) = header_from st"
  by (induction as arbitrary: st) (simp_all add: Let_def)

lemma header_step_from_other:
  "fst h \<noteq> FROM_HEADER_STRING \<Longrightarrow> header_from (header_step L h st) = header_from st"
  by (auto simp: header_step_def Let_def add_addrs_from_other)

lemma header_loop_no_from:
  "\<forall>h \<in> set hs. fst h \<noteq> FROM_HEADER_STRING \<Longrightarrow>
   header_from (header_loop L hs st) = header_from st"
  by (induction hs arbitrary: st) (simp_all add: header_step_from_other)

lemma parse_headers_no_from:
  "\<forall>h \<in> set hs. fst h \<noteq> FROM_HEADER_STRING \<Longrightarrow> header_from (parse_headers L hs) = []"
  by (simp add: parse_headers_def Let_def header_loop_no_from parsed_init_def)

subsection \<open>check\_allowed\<close>

lemma address_matches_iff:
  "address_matches L mk ps hfrom \<longleftrightarrow>
     (\<exists>a \<in> set hfrom. \<exists>p \<in> set ps. re_search L (mk p) (snd a) = Inr True)"
  by (simp add: address_matches_def list_ex_iff)

lemma searches_return_iff:
  "searches_return L mk ps hfrom \<longleftrightarrow>
     (\<forall>a \<in> set hfrom. \<forall>p \<in> set ps. \<not> isl (re_search L (mk p) (snd a)))"
  by (simp add: searches_return_def list_all_iff)

lemma search_addrs_sound:
  "search_addrs L pat xs = Inr b \<Longrightarrow> b = (\<exists>a \<in> set xs. re_search L pat (snd a) = Inr True)"
  by (induction xs) (auto split: sum.splits if_splits)

lemma search_addrs_total:
  "\<forall>a \<in> set xs. \<not> isl (re_search L pat (snd a)) \<Longrightarrow>
   search_addrs L pat xs = Inr (\<exists>a \<in> set xs. re_search L pat (snd a) = Inr True)"
  by (induction xs) (auto split: sum.splits if_splits)

lemma search_patterns_sound:
  "search_patterns L mk ps xs = Inr b \<Longrightarrow> b = address_matches L mk ps xs"
proof (induction ps)
  case Nil
  then show ?case by (simp add: address_matches_iff)
next
  case (Cons p ps)
  show ?case
  proof (cases "search_addrs L (mk p) xs")
    case (Inl e)
    with Cons.prems show ?thesis by simp
  next
    case (Inr found)
    note f = search_addrs_sound [OF Inr]
    show ?thesis
    proof (cases found)
      case True
      with Inr Cons.prems f show ?thesis by (auto simp: address_matches_iff)
    next
      case False
      with Inr Cons.prems have "search_patterns L mk ps xs = Inr b" by simp
      from Cons.IH [OF this] False f show ?thesis by (auto simp: address_matches_iff)
    qed
  qed
qed

lemma search_patterns_total:
  "searches_return L mk ps xs \<Longrightarrow> search_patterns L mk ps xs = Inr (address_matches L mk ps xs)"
proof (induction ps)
  case Nil
  then show ?case by (simp add: address_matches_iff)
next
  case (Cons p ps)
  from Cons.prems have 1: "\<forall>a \<in> set xs. \<not> isl (re_search L (mk p) (snd a))"
    and 2: "searches_return L mk ps xs" by (auto simp: searches_return_iff)
  note h = search_addrs_total [OF 1] Cons.IH [OF 2]
  show ?case by (auto simp: h address_matches_iff)
qed

lemma address_matches_iter [simp]:
  "address_matches L mk ps (iter_order L hfrom) = address_matches L mk ps hfrom"
  by (simp add: address_matches_iff)

lemma searches_return_iter [simp]:
  "searches_return L mk ps (iter_order L hfrom) = searches_return L mk ps hfrom"
  by (simp add: searches_return_iff)

lemma check_allowed_sound:
  assumes "check_allowed L hfrom ds us = Inr b"
  shows "b = sender_matches L hfrom ds us"
proof -
  have e: "address_matches L mk [] hfrom = False" for mk by (simp add: address_matches_iff)
  from assms show ?thesis
    unfolding check_allowed_def sender_matches_def
    by (auto split: sum.splits if_splits dest!: search_patterns_sound simp: e)
qed

lemma check_allowed_total:
  "searches_return L domain_pattern ds hfrom \<Longrightarrow> searches_return L user_pattern us hfrom \<Longrightarrow>
   check_allowed L hfrom ds us = Inr (sender_matches L hfrom ds us)"
  by (auto simp: check_allowed_def sender_matches_def search_patterns_total address_matches_iff)

text \<open>
  C3, as amended.  Whenever \<open>check_allowed\<close> returns, it returns true if and only if some
  from-address's email matches \<open>'@' + d + '$'\<close> for some \<open>d\<close> in \<open>allowed_domains\<close> or
  \<open>'^' + u + '$'\<close> for some \<open>u\<close> in \<open>allowed_users\<close>; it returns whenever no search
  raises, that is whenever every pattern compiles.  \<open>{("", "user@corp.com")}\<close> with
  \<open>allowed_domains = ["corp.com"]\<close> yields true, with \<open>["other.com"]\<close> false.
\<close>

theorem check_allowed_matches:
  "(check_allowed L hfrom allowed_domains allowed_users = Inr b \<longrightarrow>
      b = sender_matches L hfrom allowed_domains allowed_users) \<and>
   (searches_return L domain_pattern allowed_domains hfrom \<and>
    searches_return L user_pattern allowed_users hfrom \<longrightarrow>
      check_allowed L hfrom allowed_domains allowed_users =
        Inr (sender_matches L hfrom allowed_domains allowed_users)) \<and>
   check_allowed cpython [('''', ''user@corp.com'')] [''corp.com''] [] = Inr True \<and>
   check_allowed cpython [('''', ''user@corp.com'')] [''other.com''] [] = Inr False"
proof (intro conjI impI)
  show "check_allowed cpython [('''', ''user@corp.com'')] [''corp.com''] [] = Inr True"
    by code_simp
  show "check_allowed cpython [('''', ''user@corp.com'')] [''other.com''] [] = Inr False"
    by code_simp
qed (auto simp: check_allowed_sound check_allowed_total)

theorem check_allowed_matches_witness:
  "searches_return cpython domain_pattern [''b.com'', ''a.com''] [(''Alice'', ''alice@a.com'')] \<and>
   searches_return cpython user_pattern [''bob@b.com''] [(''Alice'', ''alice@a.com'')] \<and>
   sender_matches cpython [(''Alice'', ''alice@a.com'')] [''b.com'', ''a.com''] [''bob@b.com''] \<and>
   check_allowed cpython [(''Alice'', ''alice@a.com'')] [''b.com'', ''a.com''] [''bob@b.com'']
     = Inr True"
proof -
  have 1: "searches_return cpython domain_pattern [''b.com'', ''a.com'']
             [(''Alice'', ''alice@a.com'')]"
    by code_simp
  have 2: "searches_return cpython user_pattern [''bob@b.com''] [(''Alice'', ''alice@a.com'')]"
    by code_simp
  have 3: "sender_matches cpython [(''Alice'', ''alice@a.com'')] [''b.com'', ''a.com'']
             [''bob@b.com'']"
    by code_simp
  from check_allowed_matches [of cpython "[(''Alice'', ''alice@a.com'')]"
      "[''b.com'', ''a.com'']" "[''bob@b.com'']" True] 1 2 3
  show ?thesis by simp
qed

text \<open>
  C3, as stated, fails: the second domain matches the sender, but the first pattern does
  not compile and \<open>re.search\<close> raises before the second is tried.
\<close>

theorem check_allowed_raises:
  "sender_matches cpython [('''', ''user@corp.com'')] [''('', ''corp.com''] [] \<and>
   check_allowed cpython [('''', ''user@corp.com'')] [''('', ''corp.com''] [] = Inl ReError"
proof
  show "sender_matches cpython [('''', ''user@corp.com'')] [''('', ''corp.com''] []"
    by code_simp
  show "check_allowed cpython [('''', ''user@corp.com'')] [''('', ''corp.com''] [] = Inl ReError"
    by code_simp
qed

subsection \<open>add\_enforced\_cc\<close>

lemma has_email_iff: "has_email e xs \<longleftrightarrow> e \<in> snd ` set xs"
  by (induction xs) auto

lemma add_enforced_cc_Cons:
  "add_enforced_cc L (c # cs) hto hcc hfrom =
     add_enforced_cc L cs hto
       (if known_email (snd (parseaddr L c)) hto hcc hfrom then hcc
        else set_add (parseaddr L c) hcc) hfrom"
  by (auto simp: Let_def has_email_iff known_email_def image_Un)

lemma set_set_add [simp]: "set (set_add x s) = insert x (set s)"
  by (auto simp: set_add_def)

lemma add_enforced_cc_mono: "set hcc \<subseteq> set (add_enforced_cc L ecc hto hcc hfrom)"
proof (induction ecc arbitrary: hcc)
  case Nil
  then show ?case by simp
next
  case (Cons c cs)
  have "set hcc \<subseteq> set (if known_email (snd (parseaddr L c)) hto hcc hfrom then hcc
        else set_add (parseaddr L c) hcc)" by auto
  also have "\<dots> \<subseteq> set (add_enforced_cc L (c # cs) hto hcc hfrom)"
    unfolding add_enforced_cc_Cons by (rule Cons.IH)
  finally show ?case .
qed

lemma known_email_mono:
  "known_email e hto hcc hfrom \<Longrightarrow> set hcc \<subseteq> set hcc' \<Longrightarrow> known_email e hto hcc' hfrom"
  by (auto simp: known_email_def)

lemma add_enforced_cc_covers:
  "c \<in> set ecc \<Longrightarrow>
   known_email (snd (parseaddr L c)) hto (add_enforced_cc L ecc hto hcc hfrom) hfrom"
proof (induction ecc arbitrary: hcc)
  case Nil
  then show ?case by simp
next
  case (Cons x xs)
  define hcc' where "hcc' = (if known_email (snd (parseaddr L x)) hto hcc hfrom then hcc
                             else set_add (parseaddr L x) hcc)"
  have step: "add_enforced_cc L (x # xs) hto hcc hfrom = add_enforced_cc L xs hto hcc' hfrom"
    unfolding add_enforced_cc_Cons hcc'_def ..
  show ?case
  proof (cases "c = x")
    case True
    have "known_email (snd (parseaddr L x)) hto hcc' hfrom"
      by (auto simp: known_email_def hcc'_def)
    then show ?thesis
      unfolding step True by (rule known_email_mono) (rule add_enforced_cc_mono)
  next
    case False
    with Cons.prems have "c \<in> set xs" by simp
    then show ?thesis unfolding step by (rule Cons.IH)
  qed
qed

lemma add_enforced_cc_fixed:
  "\<forall>c \<in> set ecc. known_email (snd (parseaddr L c)) hto hcc hfrom \<Longrightarrow>
   add_enforced_cc L ecc hto hcc hfrom = hcc"
  by (induction ecc) (simp_all add: add_enforced_cc_Cons del: add_enforced_cc.simps(2))

lemma add_enforced_cc_new:
  "a \<in> set (add_enforced_cc L ecc hto hcc hfrom) \<Longrightarrow> a \<notin> set hcc \<Longrightarrow>
   a \<in> parseaddr L ` set ecc \<and> \<not> known_email (snd a) hto hcc hfrom"
proof (induction ecc arbitrary: hcc)
  case Nil
  then show ?case by simp
next
  case (Cons x xs)
  define hcc' where "hcc' = (if known_email (snd (parseaddr L x)) hto hcc hfrom then hcc
                             else set_add (parseaddr L x) hcc)"
  have step: "add_enforced_cc L (x # xs) hto hcc hfrom = add_enforced_cc L xs hto hcc' hfrom"
    unfolding add_enforced_cc_Cons hcc'_def ..
  from Cons.prems(1) have in': "a \<in> set (add_enforced_cc L xs hto hcc' hfrom)"
    unfolding step .
  show ?case
  proof (cases "a \<in> set hcc'")
    case True
    with Cons.prems(2)
    have "a = parseaddr L x" "\<not> known_email (snd (parseaddr L x)) hto hcc hfrom"
      by (auto simp: hcc'_def split: if_splits)
    then show ?thesis by simp
  next
    case False
    from Cons.IH [OF in' False]
    have "a \<in> parseaddr L ` set xs" and nk: "\<not> known_email (snd a) hto hcc' hfrom"
      by simp_all
    moreover have "set hcc \<subseteq> set hcc'" by (auto simp: hcc'_def)
    ultimately show ?thesis using known_email_mono by auto
  qed
qed

lemma add_enforced_cc_unique:
  "a \<in> set (add_enforced_cc L ecc hto hcc hfrom) \<Longrightarrow> a \<notin> set hcc \<Longrightarrow>
   b \<in> set (add_enforced_cc L ecc hto hcc hfrom) \<Longrightarrow> snd b = snd a \<Longrightarrow> b = a"
proof (induction ecc arbitrary: hcc)
  case Nil
  then show ?case by simp
next
  case (Cons x xs)
  define hcc' where "hcc' = (if known_email (snd (parseaddr L x)) hto hcc hfrom then hcc
                             else set_add (parseaddr L x) hcc)"
  have step: "add_enforced_cc L (x # xs) hto hcc hfrom = add_enforced_cc L xs hto hcc' hfrom"
    unfolding add_enforced_cc_Cons hcc'_def ..
  from Cons.prems(1,3)
  have a: "a \<in> set (add_enforced_cc L xs hto hcc' hfrom)"
    and b: "b \<in> set (add_enforced_cc L xs hto hcc' hfrom)"
    unfolding step by simp_all
  show ?case
  proof (cases "a \<in> set hcc'")
    case False
    from Cons.IH [OF a False b Cons.prems(4)] show ?thesis .
  next
    case True
    with Cons.prems(2)
    have ax: "a = parseaddr L x" and nk: "\<not> known_email (snd a) hto hcc hfrom"
      and h': "set hcc' = insert a (set hcc)"
      by (auto simp: hcc'_def split: if_splits)
    have known: "known_email (snd c) hto s hfrom" if "c \<in> set s" for c s
      using that by (auto simp: known_email_def)
    show ?thesis
    proof (cases "b \<in> set hcc'")
      case True
      show ?thesis
      proof (rule ccontr)
        assume "b \<noteq> a"
        with True h' have "b \<in> set hcc" by simp
        then have "known_email (snd b) hto hcc hfrom" by (rule known)
        with nk Cons.prems(4) show False by simp
      qed
    next
      case False
      from add_enforced_cc_new [OF b False]
      have "\<not> known_email (snd b) hto hcc' hfrom" by simp
      moreover from h' have "a \<in> set hcc'" by simp
      then have "known_email (snd a) hto hcc' hfrom" by (rule known)
      ultimately show ?thesis using Cons.prems(4) by simp
    qed
  qed
qed

text \<open>
  C4.  Applying \<open>add_enforced_cc\<close> again, with the same mandatory list, to the cc-set it
  produced (to-set and from-set unchanged) changes nothing.  The cc-set given is kept.
  An address added is the parse of a mandatory address; its email occurred in none of
  the three sets given, and in the resulting cc-set no other address, given or added,
  has that email.  Afterwards the email of every mandatory address occurs in the to-set,
  the resulting cc-set or the from-set.  Each mandatory address is judged against the
  cc-set as it stands when its turn comes: the first one is appended exactly when its
  email occurs in none of the three sets, and the rest are processed on the cc-set so
  updated.
\<close>

theorem add_enforced_cc_idempotent:
  "add_enforced_cc L enforce_cc hto (add_enforced_cc L enforce_cc hto hcc hfrom) hfrom
     = add_enforced_cc L enforce_cc hto hcc hfrom \<and>
   set hcc \<subseteq> set (add_enforced_cc L enforce_cc hto hcc hfrom) \<and>
   (\<forall>a \<in> set (add_enforced_cc L enforce_cc hto hcc hfrom) - set hcc.
      a \<in> parseaddr L ` set enforce_cc \<and> \<not> known_email (snd a) hto hcc hfrom \<and>
      (\<forall>b \<in> set (add_enforced_cc L enforce_cc hto hcc hfrom). snd b = snd a \<longrightarrow> b = a)) \<and>
   (\<forall>c \<in> set enforce_cc.
      known_email (snd (parseaddr L c)) hto (add_enforced_cc L enforce_cc hto hcc hfrom) hfrom) \<and>
   add_enforced_cc L (cc_addr # rest) hto hcc hfrom =
     add_enforced_cc L rest hto
       (if known_email (snd (parseaddr L cc_addr)) hto hcc hfrom then hcc
        else hcc @ [parseaddr L cc_addr]) hfrom"
proof (intro conjI ballI impI)
  show "add_enforced_cc L enforce_cc hto (add_enforced_cc L enforce_cc hto hcc hfrom) hfrom
     = add_enforced_cc L enforce_cc hto hcc hfrom"
    by (rule add_enforced_cc_fixed) (simp add: add_enforced_cc_covers)
  show "set hcc \<subseteq> set (add_enforced_cc L enforce_cc hto hcc hfrom)"
    by (rule add_enforced_cc_mono)
  show "add_enforced_cc L (cc_addr # rest) hto hcc hfrom =
     add_enforced_cc L rest hto
       (if known_email (snd (parseaddr L cc_addr)) hto hcc hfrom then hcc
        else hcc @ [parseaddr L cc_addr]) hfrom"
    unfolding add_enforced_cc_Cons
    by (auto simp: set_add_def known_email_def)
next
  fix a assume a: "a \<in> set (add_enforced_cc L enforce_cc hto hcc hfrom) - set hcc"
  then show "a \<in> parseaddr L ` set enforce_cc" "\<not> known_email (snd a) hto hcc hfrom"
    using add_enforced_cc_new by blast+
  fix b assume "b \<in> set (add_enforced_cc L enforce_cc hto hcc hfrom)" "snd b = snd a"
  with a show "b = a" using add_enforced_cc_unique by blast
next
  fix c assume "c \<in> set enforce_cc"
  then show "known_email (snd (parseaddr L c)) hto
               (add_enforced_cc L enforce_cc hto hcc hfrom) hfrom"
    by (rule add_enforced_cc_covers)
qed

theorem add_enforced_cc_idempotent_witness:
  "add_enforced_cc cpython [''X <audit@a.com>'', ''Bob <bob@b.com>'', ''Y <audit@a.com>'']
     [(''Bob'', ''bob@b.com'')] [] [(''Alice'', ''alice@a.com'')]
     = [(''X'', ''audit@a.com'')] \<and>
   add_enforced_cc cpython [''X <audit@a.com>'', ''Bob <bob@b.com>'', ''Y <audit@a.com>'']
     [(''Bob'', ''bob@b.com'')] [(''X'', ''audit@a.com'')] [(''Alice'', ''alice@a.com'')]
     = [(''X'', ''audit@a.com'')]"
proof -
  have 1: "add_enforced_cc cpython [''X <audit@a.com>'', ''Bob <bob@b.com>'', ''Y <audit@a.com>'']
     [(''Bob'', ''bob@b.com'')] [] [(''Alice'', ''alice@a.com'')]
     = [(''X'', ''audit@a.com'')]"
    by code_simp
  from add_enforced_cc_idempotent [of cpython
      "[''X <audit@a.com>'', ''Bob <bob@b.com>'', ''Y <audit@a.com>'']" "[(''Bob'', ''bob@b.com'')]"
      "[]" "[(''Alice'', ''alice@a.com'')]"]
  have "add_enforced_cc cpython [''X <audit@a.com>'', ''Bob <bob@b.com>'', ''Y <audit@a.com>'']
     [(''Bob'', ''bob@b.com'')]
     (add_enforced_cc cpython [''X <audit@a.com>'', ''Bob <bob@b.com>'', ''Y <audit@a.com>'']
        [(''Bob'', ''bob@b.com'')] [] [(''Alice'', ''alice@a.com'')])
     [(''Alice'', ''alice@a.com'')]
     = add_enforced_cc cpython [''X <audit@a.com>'', ''Bob <bob@b.com>'', ''Y <audit@a.com>'']
        [(''Bob'', ''bob@b.com'')] [] [(''Alice'', ''alice@a.com'')]"
    by (rule conjunct1)
  then have 2: "add_enforced_cc cpython
     [''X <audit@a.com>'', ''Bob <bob@b.com>'', ''Y <audit@a.com>'']
     [(''Bob'', ''bob@b.com'')] [(''X'', ''audit@a.com'')] [(''Alice'', ''alice@a.com'')]
     = [(''X'', ''audit@a.com'')]"
    unfolding 1 .
  from 1 2 show ?thesis by blast
qed

subsection \<open>process\_results\<close>

lemma set_set_union [simp]: "set (set_union s t) = set s \<union> set t"
  by (induction t arbitrary: s) auto

lemma set_discard_matching:
  "set (discard_matching s cp hto) = {a \<in> set hto. \<not> (a \<in> set cp \<and> snd a = snd s)}"
  by (induction cp arbitrary: hto) (auto simp: set_discard_def)

lemma set_discard_self:
  "set (discard_self L ss hto) = {a \<in> set hto. snd a \<notin> snd ` set ss}"
  by (induction ss arbitrary: hto) (auto simp: set_discard_matching)

lemma set_outgoing_to:
  "set (outgoing_to L hself hto hfrom) = {a \<in> set hto. snd a \<notin> snd ` set hself} \<union> set hfrom"
  by (simp add: outgoing_to_def set_discard_self)

lemma distinct_set_add: "distinct s \<Longrightarrow> distinct (set_add x s)"
  by (simp add: set_add_def)

lemma distinct_set_union: "distinct s \<Longrightarrow> distinct (set_union s t)"
  by (induction t arbitrary: s) (simp_all add: distinct_set_add)

lemma distinct_discard_matching: "distinct hto \<Longrightarrow> distinct (discard_matching s cp hto)"
  by (induction cp arbitrary: hto) (simp_all add: set_discard_def distinct_removeAll)

lemma distinct_discard_self: "distinct hto \<Longrightarrow> distinct (discard_self L ss hto)"
  by (induction ss arbitrary: hto) (simp_all add: distinct_discard_matching)

lemma distinct_outgoing_to: "distinct hto \<Longrightarrow> distinct (outgoing_to L hself hto hfrom)"
  by (simp add: outgoing_to_def distinct_set_union distinct_discard_self)

lemma process_results_nonempty:
  "hself \<noteq> [] \<Longrightarrow>
   process_results L result hfrom hto hcc hself href hirt =
     Inr (result(''to'' \<mapsto> join '', '' (map (formataddr L)
                                        (iter_order L (outgoing_to L hself hto hfrom))),
                 ''cc'' \<mapsto> join '', '' (map (formataddr L) (iter_order L hcc)),
                 ''from'' \<mapsto> formataddr L (hd (iter_order L hself)),
                 ''references'' \<mapsto> href,
                 ''in_reply_to'' \<mapsto> hirt))"
  by (cases "iter_order L hself")
     (simp_all add: process_results_def Let_def set_pop_def outgoing_to_def)

text \<open>
  C5.  The to-set that \<open>process_results\<close> renders is the to-set without every address
  whose email is the email of a self-address, merged with the from-set, and it has no
  duplicates if the to-set had none.  With a non-empty self-set the \<open>to\<close> string is the
  addresses of that set, each once, rendered and joined in the order in which the loop
  visits the set (some permutation of it), and the \<open>from\<close> string is a self-address
  rendered.  For the headers \<open>From: A <a@x.com>\<close>, \<open>To: B <b@y.com>\<close>,
  \<open>Delivered-To: B <b@y.com>\<close> (no policy configured) the \<open>to\<close> string contains
  \<open>A <a@x.com>\<close>, does not contain \<open>B <b@y.com>\<close>, and \<open>from\<close> is \<open>B <b@y.com>\<close>.
\<close>

theorem process_results_self_dedup:
  "set (outgoing_to L hself hto hfrom)
     = {a \<in> set hto. snd a \<notin> snd ` set hself} \<union> set hfrom \<and>
   (distinct hto \<longrightarrow> distinct (outgoing_to L hself hto hfrom)) \<and>
   (hself \<noteq> [] \<longrightarrow>
      (\<exists>r xs. process_results L result hfrom hto hcc hself href hirt = Inr r \<and>
           mset xs = mset (outgoing_to L hself hto hfrom) \<and>
           r ''to'' = Some (join '', '' (map (formataddr L) xs)) \<and>
           (\<exists>s \<in> set hself. r ''from'' = Some (formataddr L s)))) \<and>
   field_contains
     (snd (run cpython [(''From'', ''A <a@x.com>''), (''To'', ''B <b@y.com>''),
                        (''Delivered-To'', ''B <b@y.com>'')] [] [] []))
     ''to'' ''A <a@x.com>'' \<and>
   \<not> field_contains
     (snd (run cpython [(''From'', ''A <a@x.com>''), (''To'', ''B <b@y.com>''),
                        (''Delivered-To'', ''B <b@y.com>'')] [] [] []))
     ''to'' ''B <b@y.com>'' \<and>
   result_field
     (snd (run cpython [(''From'', ''A <a@x.com>''), (''To'', ''B <b@y.com>''),
                        (''Delivered-To'', ''B <b@y.com>'')] [] [] []))
     ''from'' = Some ''B <b@y.com>''"
proof (intro conjI impI)
  show "set (outgoing_to L hself hto hfrom)
          = {a \<in> set hto. snd a \<notin> snd ` set hself} \<union> set hfrom"
    by (rule set_outgoing_to)
  show "distinct (outgoing_to L hself hto hfrom)" if "distinct hto"
    using that by (rule distinct_outgoing_to)
  show "field_contains
     (snd (run cpython [(''From'', ''A <a@x.com>''), (''To'', ''B <b@y.com>''),
                        (''Delivered-To'', ''B <b@y.com>'')] [] [] []))
     ''to'' ''A <a@x.com>''"
    by code_simp
  show "\<not> field_contains
     (snd (run cpython [(''From'', ''A <a@x.com>''), (''To'', ''B <b@y.com>''),
                        (''Delivered-To'', ''B <b@y.com>'')] [] [] []))
     ''to'' ''B <b@y.com>''"
    by code_simp
  show "result_field
     (snd (run cpython [(''From'', ''A <a@x.com>''), (''To'', ''B <b@y.com>''),
                        (''Delivered-To'', ''B <b@y.com>'')] [] [] []))
     ''from'' = Some ''B <b@y.com>''"
    by code_simp
next
  assume ne: "hself \<noteq> []"
  then have "iter_order L hself \<noteq> []" by simp
  then have "hd (iter_order L hself) \<in> set (iter_order L hself)" by (rule hd_in_set)
  then have h: "hd (iter_order L hself) \<in> set hself" by simp
  have "mset (iter_order L (outgoing_to L hself hto hfrom)) = mset (outgoing_to L hself hto hfrom)"
    by simp
  moreover have "(result(''to'' \<mapsto> join '', '' (map (formataddr L)
                                        (iter_order L (outgoing_to L hself hto hfrom))),
                 ''cc'' \<mapsto> join '', '' (map (formataddr L) (iter_order L hcc)),
                 ''from'' \<mapsto> formataddr L (hd (iter_order L hself)),
                 ''references'' \<mapsto> href,
                 ''in_reply_to'' \<mapsto> hirt)) ''to''
        = Some (join '', '' (map (formataddr L) (iter_order L (outgoing_to L hself hto hfrom))))"
    by simp
  moreover have "(result(''to'' \<mapsto> join '', '' (map (formataddr L)
                                        (iter_order L (outgoing_to L hself hto hfrom))),
                 ''cc'' \<mapsto> join '', '' (map (formataddr L) (iter_order L hcc)),
                 ''from'' \<mapsto> formataddr L (hd (iter_order L hself)),
                 ''references'' \<mapsto> href,
                 ''in_reply_to'' \<mapsto> hirt)) ''from''
        = Some (formataddr L (hd (iter_order L hself)))"
    by simp
  ultimately show "\<exists>r xs. process_results L result hfrom hto hcc hself href hirt = Inr r \<and>
           mset xs = mset (outgoing_to L hself hto hfrom) \<and>
           r ''to'' = Some (join '', '' (map (formataddr L) xs)) \<and>
           (\<exists>s \<in> set hself. r ''from'' = Some (formataddr L s))"
    using h unfolding process_results_nonempty [OF ne] by blast
qed

theorem process_results_self_dedup_witness:
  "[(''B'', ''b@y.com'')] \<noteq> ([] :: addr list) \<and>
   distinct [(''B'', ''b@y.com''), (''Bee'', ''b@y.com'')] \<and>
   outgoing_to cpython [(''B'', ''b@y.com'')] [(''B'', ''b@y.com''), (''Bee'', ''b@y.com'')]
     [(''A'', ''a@x.com'')] = [(''A'', ''a@x.com'')] \<and>
   (\<exists>r. process_results cpython Map.empty [(''A'', ''a@x.com'')]
          [(''B'', ''b@y.com''), (''Bee'', ''b@y.com'')] [] [(''B'', ''b@y.com'')] [] [] = Inr r \<and>
        r ''to'' = Some ''A <a@x.com>'' \<and> r ''from'' = Some ''B <b@y.com>'')"
proof -
  have ne: "[(''B'', ''b@y.com'')] \<noteq> ([] :: addr list)" by simp
  have di: "distinct [(''B'', ''b@y.com''), (''Bee'', ''b@y.com'')]" by simp
  have out: "outgoing_to cpython [(''B'', ''b@y.com'')]
     [(''B'', ''b@y.com''), (''Bee'', ''b@y.com'')] [(''A'', ''a@x.com'')] = [(''A'', ''a@x.com'')]"
    by code_simp
  have fa: "formataddr cpython (''A'', ''a@x.com'') = ''A <a@x.com>''"
    "formataddr cpython (''B'', ''b@y.com'') = ''B <b@y.com>''"
    by code_simp+
  from process_results_self_dedup [of cpython "[(''B'', ''b@y.com'')]"
      "[(''B'', ''b@y.com''), (''Bee'', ''b@y.com'')]" "[(''A'', ''a@x.com'')]"
      Map.empty "[]" "[]" "[]"] ne
  obtain r xs where "process_results cpython Map.empty [(''A'', ''a@x.com'')]
          [(''B'', ''b@y.com''), (''Bee'', ''b@y.com'')] [] [(''B'', ''b@y.com'')] [] [] = Inr r"
    and "mset xs = mset (outgoing_to cpython [(''B'', ''b@y.com'')]
            [(''B'', ''b@y.com''), (''Bee'', ''b@y.com'')] [(''A'', ''a@x.com'')])"
    and "r ''to'' = Some (join '', '' (map (formataddr cpython) xs))"
    and "\<exists>s \<in> set [(''B'', ''b@y.com'')]. r ''from'' = Some (formataddr cpython s)"
    by blast
  then have "process_results cpython Map.empty [(''A'', ''a@x.com'')]
          [(''B'', ''b@y.com''), (''Bee'', ''b@y.com'')] [] [(''B'', ''b@y.com'')] [] [] = Inr r \<and>
        r ''to'' = Some ''A <a@x.com>'' \<and> r ''from'' = Some ''B <b@y.com>''"
    by (auto simp: out fa)
  with ne di out show ?thesis by blast
qed

text \<open>
  With two addresses to render, the order is the library's: the same headers give either
  order of the same two addresses, depending on the rank the hash table gives them.
\<close>

lemma to_order_follows_rank:
  "result_field
     (snd (run (cpython\<lparr>set_rank := (\<lambda>s a. if fst a = ''A'' then 0 else 1)\<rparr>)
             [(''From'', ''A <a@x.com>''), (''To'', ''B <b@y.com>, C <c@z.com>''),
              (''Delivered-To'', ''B <b@y.com>'')] [] [] []))
     ''to'' = Some ''A <a@x.com>, C <c@z.com>'' \<and>
   result_field
     (snd (run (cpython\<lparr>set_rank := (\<lambda>s a. if fst a = ''C'' then 0 else 1)\<rparr>)
             [(''From'', ''A <a@x.com>''), (''To'', ''B <b@y.com>, C <c@z.com>''),
              (''Delivered-To'', ''B <b@y.com>'')] [] [] []))
     ''to'' = Some ''C <c@z.com>, A <a@x.com>''"
  by (intro conjI) code_simp+

text \<open>
  C6.  Whatever the other arguments, \<open>process_results\<close> called with an empty
  \<open>header_self\<close> raises the KeyError of \<open>pop\<close> on an empty set and returns no result
  mapping.
\<close>

theorem process_results_empty_self:
  "process_results L result hfrom hto hcc [] href hirt = Inl (KeyError ''pop from an empty set'')"
  by (simp add: process_results_def set_pop_def Let_def)

subsection \<open>run\<close>

text \<open>
  C1, as amended.  For the headers \<open>From: Alice <alice@a.com>\<close>, \<open>To: Bob <bob@b.com>\<close>,
  \<open>Delivered-To: Bob <bob@b.com>\<close>, \<open>enforce_cc = ["audit@a.com"]\<close> and no allow-list,
  \<open>run\<close> returns a mapping whose \<open>to\<close> is \<open>Alice <alice@a.com>\<close>, whose \<open>cc\<close> is
  \<open>audit@a.com\<close> (an address without display name is rendered bare) and whose \<open>from\<close> is
  \<open>Bob <bob@b.com>\<close>.
\<close>

theorem run_scenario:
  "result_field
     (snd (run cpython [(''From'', ''Alice <alice@a.com>''), (''To'', ''Bob <bob@b.com>''),
                        (''Delivered-To'', ''Bob <bob@b.com>'')] [''audit@a.com''] [] []))
     ''to'' = Some ''Alice <alice@a.com>'' \<and>
   result_field
     (snd (run cpython [(''From'', ''Alice <alice@a.com>''), (''To'', ''Bob <bob@b.com>''),
                        (''Delivered-To'', ''Bob <bob@b.com>'')] [''audit@a.com''] [] []))
     ''cc'' = Some ''audit@a.com'' \<and>
   result_field
     (snd (run cpython [(''From'', ''Alice <alice@a.com>''), (''To'', ''Bob <bob@b.com>''),
                        (''Delivered-To'', ''Bob <bob@b.com>'')] [''audit@a.com''] [] []))
     ''from'' = Some ''Bob <bob@b.com>''"
  by (intro conjI) code_simp+

theorem run_scenario_witness:
  "fst (run cpython [(''From'', ''Alice <alice@a.com>''), (''To'', ''Bob <bob@b.com>''),
                     (''Delivered-To'', ''Bob <bob@b.com>'')] [''audit@a.com''] [] []) = [] \<and>
   raised (snd (run cpython [(''From'', ''Alice <alice@a.com>''), (''To'', ''Bob <bob@b.com>''),
                     (''Delivered-To'', ''Bob <bob@b.com>'')] [''audit@a.com''] [] [])) = None \<and>
   result_field
     (snd (run cpython [(''From'', ''Alice <alice@a.com>''), (''To'', ''Bob <bob@b.com>''),
                        (''Delivered-To'', ''Bob <bob@b.com>'')] [''audit@a.com''] [] []))
     ''cc'' = Some ''audit@a.com''"
proof -
  have 1: "fst (run cpython [(''From'', ''Alice <alice@a.com>''), (''To'', ''Bob <bob@b.com>''),
                     (''Delivered-To'', ''Bob <bob@b.com>'')] [''audit@a.com''] [] []) = []"
    by code_simp
  have 2: "raised (snd (run cpython [(''From'', ''Alice <alice@a.com>''),
                     (''To'', ''Bob <bob@b.com>''), (''Delivered-To'', ''Bob <bob@b.com>'')]
                     [''audit@a.com''] [] [])) = None"
    by code_simp
  from 1 2 run_scenario show ?thesis by blast
qed

text \<open>
  C1, as stated, fails: the \<open>cc\<close> field is not \<open><audit@a.com>\<close>.
\<close>

theorem run_scenario_cc_not_bracketed:
  "result_field
     (snd (run cpython [(''From'', ''Alice <alice@a.com>''), (''To'', ''Bob <bob@b.com>''),
                        (''Delivered-To'', ''Bob <bob@b.com>'')] [''audit@a.com''] [] []))
     ''cc'' \<noteq> Some ''<audit@a.com>''"
  by code_simp

text \<open>
  Where the from-set is not empty, a rejected sender ends the call as the specification
  says: one log entry naming a from-address, then exit status 1.
\<close>

lemma run_rejected_exits:
  assumes "allowed_domains \<noteq> [] \<or> allowed_users \<noteq> []"
    and "check_allowed L (header_from (parse_headers L headers)) allowed_domains allowed_users
           = Inr False"
    and "header_from (parse_headers L headers) \<noteq> []"
  shows "\<exists>a \<in> set (header_from (parse_headers L headers)).
           run L headers enforce_cc allowed_domains allowed_users
             = ([''User not permitted: '' @ formataddr L a], Exited 1)"
proof -
  from assms(3) obtain a as where it: "iter_order L (header_from (parse_headers L headers)) = a # as"
    by (cases "iter_order L (header_from (parse_headers L headers))") auto
  then have "a \<in> set (iter_order L (header_from (parse_headers L headers)))" by simp
  then have "a \<in> set (header_from (parse_headers L headers))" by simp
  moreover from assms(1,2) it
  have "run L headers enforce_cc allowed_domains allowed_users
          = ([''User not permitted: '' @ formataddr L a], Exited 1)"
    by (auto simp: run_def Let_def set_pop_def)
  ultimately show ?thesis by blast
qed

text \<open>
  C7 at the input where the code departs from it: an allow-list is configured, the
  headers hold no \<open>From\<close>, \<open>check_allowed\<close> returns false, and \<open>run\<close> raises KeyError
  with nothing logged instead of exiting with status 1.
\<close>

theorem run_rejection_without_sender:
  "check_allowed cpython
     (header_from (parse_headers cpython [(''To'', ''Bob <bob@b.com>''), (''Subject'', ''hello'')]))
     [] [''alice@a.com''] = Inr False \<and>
   fst (run cpython [(''To'', ''Bob <bob@b.com>''), (''Subject'', ''hello'')] [] []
          [''alice@a.com'']) = [] \<and>
   raised (snd (run cpython [(''To'', ''Bob <bob@b.com>''), (''Subject'', ''hello'')] [] []
                  [''alice@a.com''])) = Some (KeyError ''pop from an empty set'') \<and>
   exit_status (snd (run cpython [(''To'', ''Bob <bob@b.com>''), (''Subject'', ''hello'')] [] []
                       [''alice@a.com''])) = None"
  by (intro conjI) code_simp+

theorem run_rejection_without_sender_witness:
  "header_from (parse_headers cpython [(''To'', ''Bob <bob@b.com>''), (''Subject'', ''hello'')])
     = [] \<and>
   raised (snd (run cpython [(''To'', ''Bob <bob@b.com>''), (''Subject'', ''hello'')] [] []
                  [''alice@a.com''])) = Some (KeyError ''pop from an empty set'')"
proof -
  have 1: "header_from
             (parse_headers cpython [(''To'', ''Bob <bob@b.com>''), (''Subject'', ''hello'')])
           = []"
    by code_simp
  from 1 run_rejection_without_sender show ?thesis by blast
qed

lemma run_rejected_example:
  "fst (run cpython [(''From'', ''Alice <alice@a.com>''), (''To'', ''Bob <bob@b.com>''),
                     (''Delivered-To'', ''Bob <bob@b.com>'')] [] [''b.com''] [])
     = [''User not permitted: Alice <alice@a.com>''] \<and>
   exit_status (snd (run cpython [(''From'', ''Alice <alice@a.com>''), (''To'', ''Bob <bob@b.com>''),
                     (''Delivered-To'', ''Bob <bob@b.com>'')] [] [''b.com''] [])) = Some 1"
  by (intro conjI) code_simp+

lemma search_patterns_empty_from: "search_patterns L mk ps [] = Inr False"
  by (induction ps) simp_all

lemma check_allowed_empty_from: "check_allowed L [] ds us = Inr False"
  by (simp add: check_allowed_def search_patterns_empty_from)

text \<open>
  C10.  With an allow-list configured and no \<open>From\<close> header in the input, \<open>run\<close> raises
  the KeyError of \<open>pop\<close> on the empty from-set: it logs nothing and does not exit with
  status 1.
\<close>

theorem run_no_from_header:
  assumes "allowed_domains \<noteq> [] \<or> allowed_users \<noteq> []"
    and "\<forall>h \<in> set headers. fst h \<noteq> FROM_HEADER_STRING"
  shows "run L headers enforce_cc allowed_domains allowed_users =
           ([], Raised (KeyError ''pop from an empty set''))"
  using assms
  by (simp add: run_def Let_def parse_headers_no_from check_allowed_empty_from set_pop_def)

theorem run_no_from_header_witness:
  "run cpython [(''To'', ''Bob <bob@b.com>''), (''Delivered-To'', ''Bob <bob@b.com>'')]
      [] [''corp.com''] [] = ([], Raised (KeyError ''pop from an empty set''))"
  using run_no_from_header [of "[''corp.com'']" "[]"
     "[(''To'', ''Bob <bob@b.com>''), (''Delivered-To'', ''Bob <bob@b.com>'')]" cpython "[]"]
  by (simp add: FROM_HEADER_STRING_def)

section \<open>Properties of the email sender\<close>






text \<open>
  C8.  With no \<open>imap_mailboxes\<close> value, or an empty one, \<open>SendEmail.run\<close> raises
  ValueError; with a non-empty account mapping that lacks the requested name it raises
  KeyError, whose message ends with the configured account names joined by commas.
  Each time the call ends with no message object built and no SMTP call made.
\<close>

theorem send_email_account_errors:
  "(imap_mailboxes cfg = None \<longrightarrow>
      send_email_run E cfg email_from email_to email_cc email_references email_in_reply_to
        subject account message_text message_html message_images =
      (Raised (ValueError ([DQUOTE] @ ''imap_mailboxes'' @ [DQUOTE] @
                 '' config value is required to send email.'')), world_init)) \<and>
   (imap_mailboxes cfg = Some [] \<longrightarrow>
      send_email_run E cfg email_from email_to email_cc email_references email_in_reply_to
        subject account message_text message_html message_images =
      (Raised (ValueError ''at least one account is required to send email.''), world_init)) \<and>
   (imap_mailboxes cfg = Some accounts \<and> accounts \<noteq> [] \<and> account \<notin> fst ` set accounts \<longrightarrow>
      send_email_run E cfg email_from email_to email_cc email_references email_in_reply_to
        subject account message_text message_html message_images =
      (Raised (KeyError (''The account '' @ [DQUOTE] @ account @ [DQUOTE] @
                 '' does not seem to appear in the configuration. Available accounts are: '' @
                 join '','' (map fst accounts))), world_init)) \<and>
   message world_init = None \<and> smtp_log world_init = []"
proof (intro conjI impI)
  assume "imap_mailboxes cfg = Some accounts \<and> accounts \<noteq> [] \<and> account \<notin> fst ` set accounts"
  then have "imap_mailboxes cfg = Some accounts" "accounts \<noteq> []" "map_of accounts account = None"
    by (simp_all add: map_of_eq_None_iff)
  then show "send_email_run E cfg email_from email_to email_cc email_references email_in_reply_to
        subject account message_text message_html message_images =
      (Raised (KeyError (''The account '' @ [DQUOTE] @ account @ [DQUOTE] @
                 '' does not seem to appear in the configuration. Available accounts are: '' @
                 join '','' (map fst accounts))), world_init)"
    by (simp add: send_email_run_def lookup_account_def account_missing_def)
qed (simp_all add: send_email_run_def lookup_account_def world_init_def)

theorem send_email_account_errors_witness:
  "fst (send_email_run example_env \<lparr>imap_mailboxes = None\<rparr> ''a@a.com'' ''b@b.com'' [] [] [] ''Hi''
          ''main'' (Some ''text'') None []) =
     Raised (ValueError ([DQUOTE] @ ''imap_mailboxes'' @ [DQUOTE] @
                 '' config value is required to send email.'')) \<and>
   fst (send_email_run example_env \<lparr>imap_mailboxes = Some []\<rparr> ''a@a.com'' ''b@b.com'' [] [] [] ''Hi''
          ''main'' (Some ''text'') None []) =
     Raised (ValueError ''at least one account is required to send email.'') \<and>
   send_email_run example_env \<lparr>imap_mailboxes = Some [(''main'', []), (''backup'', [])]\<rparr>
      ''a@a.com'' ''b@b.com'' [] [] [] ''Hi'' ''other'' (Some ''text'') None [] =
     (Raised (KeyError (''The account '' @ [DQUOTE] @ ''other'' @ [DQUOTE] @
                 '' does not seem to appear in the configuration. Available accounts are: '' @
                 ''main,backup'')), \<lparr>message = None, smtp_log = []\<rparr>)"
proof -
  note t = send_email_account_errors [where E = example_env and email_from = "''a@a.com''"
      and email_to = "''b@b.com''" and email_cc = "[]" and email_references = "[]"
      and email_in_reply_to = "[]" and subject = "''Hi''" and message_text = "Some ''text''"
      and message_html = None and message_images = "[]"]
  from t [where cfg = "\<lparr>imap_mailboxes = None\<rparr>" and account = "''main''"]
  have 1: "fst (send_email_run example_env \<lparr>imap_mailboxes = None\<rparr> ''a@a.com'' ''b@b.com'' [] [] [] ''Hi''
          ''main'' (Some ''text'') None []) =
     Raised (ValueError ([DQUOTE] @ ''imap_mailboxes'' @ [DQUOTE] @
                 '' config value is required to send email.''))" by simp
  from t [where cfg = "\<lparr>imap_mailboxes = Some []\<rparr>" and account = "''main''"]
  have 2: "fst (send_email_run example_env \<lparr>imap_mailboxes = Some []\<rparr> ''a@a.com'' ''b@b.com'' [] [] [] ''Hi''
          ''main'' (Some ''text'') None []) =
     Raised (ValueError ''at least one account is required to send email.'')" by simp
  from t [where cfg = "\<lparr>imap_mailboxes = Some [(''main'', []), (''backup'', [])]\<rparr>"
      and account = "''other''" and accounts = "[(''main'', []), (''backup'', [])]"]
  have 3: "send_email_run example_env \<lparr>imap_mailboxes = Some [(''main'', []), (''backup'', [])]\<rparr>
      ''a@a.com'' ''b@b.com'' [] [] [] ''Hi'' ''other'' (Some ''text'') None [] =
     (Raised (KeyError (''The account '' @ [DQUOTE] @ ''other'' @ [DQUOTE] @
                 '' does not seem to appear in the configuration. Available accounts are: '' @
                 ''main,backup'')), \<lparr>message = None, smtp_log = []\<rparr>)"
    by (simp add: world_init_def)
  from 1 2 3 show ?thesis by blast
qed







text \<open>
  When the account is complete, every image can be read and the SMTP library raises
  nothing, the call returns after the six SMTP calls, the message sent being the one built.
\<close>

lemma attach_images_succeeds:
  "\<forall>i \<in> set imgs. files E i \<noteq> None \<Longrightarrow> fst (attach_images E imgs m) = None"
  by (induction imgs arbitrary: m) (auto simp: Let_def split: option.splits)

lemma send_email_run_sends:
  assumes acc: "lookup_account cfg account = Inr account_data"
    and ad: "dict_get account_data ''server'' = Inr server"
            "dict_get account_data ''port'' = Inr port" "py_int port = Inr portnum"
            "dict_get account_data ''username'' = Inr username"
            "dict_get account_data ''password'' = Inr password"
    and imgs: "\<forall>i \<in> set message_images. files E i \<noteq> None"
    and smtp: "\<forall>h c. smtp_reply E h c = None"
  shows "\<exists>m. send_email_run E cfg email_from email_to email_cc email_references
               email_in_reply_to subject account message_text message_html message_images =
             (Returned (),
              \<lparr> message = Some m,
                smtp_log = [Connect server portnum 20, Ehlo, StartTLS, Login username password,
                            SendMail email_from (envelope_recipients email_to email_cc)
                              (as_string E (resolve m)),
                            Quit] \<rparr>)"
proof -
  define m0 where "m0 = build_message email_from email_to email_cc email_references
                          email_in_reply_to subject message_text message_html"
  obtain m where r: "attach_images E message_images m0 = (None, m)"
    using attach_images_succeeds [OF imgs, of m0]
    by (cases "attach_images E message_images m0") auto
  show ?thesis
    by (rule exI [of _ m])
       (simp add: send_email_run_def acc Let_def m0_def [symmetric] r smtp_session_def ad
          smtp_do_def smtp world_init_def)
qed

end
